theory Spec2Isabelle
  imports Main
begin

section \<open>JavaScript values and the object store\<close>

text \<open>
  The selectors and the list field component only read and build plain data: primitives,
  object literals and array literals. A value is a primitive, a reference into a store of
  objects, a function or a built-in prototype object, so that two values are the same
  object exactly when they are the same reference (\<open>===\<close> on objects). Numbers are the
  integers (array and string lengths are the only numbers the code computes). A function
  value carries its name and its number of declared parameters (its \<open>name\<close> and \<open>length\<close>
  properties); functions of the same name and arity are not told apart.

  An object of the store is the map from its own property names to their values; it is
  plain data, made by an object literal or parsed from JSON: its prototype is
  \<open>Object.prototype\<close>, and it has no getters. An array has its elements and its length.
  Characters are bytes, where the code units of a JavaScript string are 16 bits wide.
\<close>

type_synonym addr = nat

datatype builtin =
    ArrayPrototype
  | StringPrototype
  | NumberPrototype
  | BooleanPrototype
  | FunctionPrototype

datatype jsval =
    JUndefined
  | JNull
  | JBool bool
  | JNum int
  | JStr string
  | JRef addr
  | JFun string nat
  | JObjectPrototype
  | JPrototype builtin

datatype jsobj =
    JObject "string \<rightharpoonup> jsval"
  | JArray "jsval list"

type_synonym heap = "jsobj list"

datatype error = TypeError

text \<open>A computation reads and extends the store, and either returns a value or throws.\<close>

type_synonym 'a js = "heap \<Rightarrow> (error + 'a) \<times> heap"

definition heap_get :: "heap \<Rightarrow> addr \<Rightarrow> jsobj option" where
  "heap_get h a = (if a < length h then Some (h ! a) else None)"

text \<open>An object or array literal: a new object at a fresh address.\<close>

definition alloc :: "jsobj \<Rightarrow> heap \<Rightarrow> jsval \<times> heap" where
  "alloc ob h = (JRef (length h), h @ [ob])"

text \<open>Truthiness, as \<open>&&\<close> and \<open>? :\<close> test it.\<close>

fun truthy :: "jsval \<Rightarrow> bool" where
  "truthy JUndefined = False"
| "truthy JNull = False"
| "truthy (JBool b) = b"
| "truthy (JNum n) = (n \<noteq> 0)"
| "truthy (JStr s) = (s \<noteq> [])"
| "truthy (JRef a) = True"
| "truthy (JFun f n) = True"
| "truthy JObjectPrototype = True"
| "truthy (JPrototype b) = True"

subsection \<open>Built-in objects\<close>

text \<open>
  The members of \<open>Object.prototype\<close>, which every plain object inherits, as ECMAScript
  (with its Annex B) specifies them: each is a function, with its number of parameters.
  Besides these, \<open>Object.prototype\<close> has the accessor \<open>__proto__\<close>.
\<close>

definition object_prototype :: "string \<rightharpoonup> jsval" where
  "object_prototype = map_of
     [(''constructor'', JFun ''Object'' 1),
      (''hasOwnProperty'', JFun ''hasOwnProperty'' 1),
      (''isPrototypeOf'', JFun ''isPrototypeOf'' 1),
      (''propertyIsEnumerable'', JFun ''propertyIsEnumerable'' 1),
      (''toLocaleString'', JFun ''toLocaleString'' 0),
      (''toString'', JFun ''toString'' 0),
      (''valueOf'', JFun ''valueOf'' 0),
      (''__defineGetter__'', JFun ''__defineGetter__'' 2),
      (''__defineSetter__'', JFun ''__defineSetter__'' 2),
      (''__lookupGetter__'', JFun ''__lookupGetter__'' 1),
      (''__lookupSetter__'', JFun ''__lookupSetter__'' 1)]"


text \<open>
  What the other built-in objects hold depends on the engine and its version, and no part
  of the code names any of it. It is a parameter: \<open>members B b\<close> are the own data
  properties of the prototype object \<open>b\<close>; \<open>statics B f\<close> are the own properties of the
  function named \<open>f\<close> other than \<open>length\<close> and \<open>name\<close> (such as \<open>prototype\<close>, or a
  \<open>propTypes\<close> assigned to a component), and \<open>enumerable B f\<close> says which of them an
  object spread copies.
\<close>

record builtins =
  members :: "builtin \<Rightarrow> string \<rightharpoonup> jsval"
  statics :: "string \<Rightarrow> string \<rightharpoonup> jsval"
  enumerable :: "string \<Rightarrow> string set"

subsection \<open>Reading a property\<close>

text \<open>
  The canonical decimal spelling of an array index: \<open>''0''\<close>, or digits that do not start
  with \<open>0\<close>.
\<close>

definition is_digit :: "char \<Rightarrow> bool" where
  "is_digit c = (48 \<le> (of_char c :: nat) \<and> (of_char c :: nat) \<le> 57)"

definition array_index :: "string \<Rightarrow> nat option" where
  "array_index k =
     (if k = [] \<or> \<not> list_all is_digit k \<or> (1 < length k \<and> hd k = CHR ''0'') then None
      else Some (foldl (\<lambda>n c. 10 * n + ((of_char c :: nat) - 48)) 0 k))"

definition indexed :: "jsval list \<Rightarrow> string \<rightharpoonup> jsval" where
  "indexed xs k =
     (case array_index k of
        None \<Rightarrow> None
      | Some i \<Rightarrow> if i < length xs then Some (xs ! i) else None)"

text \<open>
  What an object holds under a name: a value, the getter of \<open>__proto__\<close>, which returns
  the prototype of the value the property is read from, or the getter of the restricted
  properties \<open>caller\<close> and \<open>arguments\<close> of \<open>Function.prototype\<close>, which throws.
\<close>

datatype slot = Data jsval | PrototypeGetter | Restricted

text \<open>
  The own property \<open>k\<close> of a value. A reference outside the store does not occur in a
  running program; it reads as an object without own properties.
\<close>

fun own_slot :: "builtins \<Rightarrow> heap \<Rightarrow> jsval \<Rightarrow> string \<Rightarrow> slot option" where
  "own_slot B h (JRef a) k =
     (case heap_get h a of
        Some (JObject m) \<Rightarrow> map_option Data (m k)
      | Some (JArray xs) \<Rightarrow>
          if k = ''length'' then Some (Data (JNum (int (length xs))))
          else map_option Data (indexed xs k)
      | None \<Rightarrow> None)"
| "own_slot B h (JStr s) k =
     (if k = ''length'' then Some (Data (JNum (int (length s))))
      else map_option Data (indexed (map (\<lambda>c. JStr [c]) s) k))"
| "own_slot B h (JFun f n) k =
     (if k = ''length'' then Some (Data (JNum (int n)))
      else if k = ''name'' then Some (Data (JStr f))
      else map_option Data (statics B f k))"
| "own_slot B h JObjectPrototype k =
     (if k = ''__proto__'' then Some PrototypeGetter
      else map_option Data (object_prototype k))"
| "own_slot B h (JPrototype b) k =
     (if b = FunctionPrototype \<and> (k = ''caller'' \<or> k = ''arguments'') then Some Restricted
      else map_option Data (members B b k))"
| "own_slot B h v k = None"

text \<open>The prototype chain of a value (of its wrapper object, for a primitive).\<close>

fun proto_chain :: "heap \<Rightarrow> jsval \<Rightarrow> jsval list" where
  "proto_chain h (JRef a) =
     (case heap_get h a of
        Some (JArray xs) \<Rightarrow> [JPrototype ArrayPrototype, JObjectPrototype]
      | _ \<Rightarrow> [JObjectPrototype])"
| "proto_chain h (JStr s) = [JPrototype StringPrototype, JObjectPrototype]"
| "proto_chain h (JNum n) = [JPrototype NumberPrototype, JObjectPrototype]"
| "proto_chain h (JBool b) = [JPrototype BooleanPrototype, JObjectPrototype]"
| "proto_chain h (JFun f n) = [JPrototype FunctionPrototype, JObjectPrototype]"
| "proto_chain h (JPrototype b) = [JObjectPrototype]"
| "proto_chain h v = []"

text \<open>The first object of a chain that has the property.\<close>

fun find_slot :: "builtins \<Rightarrow> heap \<Rightarrow> jsval list \<Rightarrow> string \<Rightarrow> slot option" where
  "find_slot B h [] k = None"
| "find_slot B h (ob # obs) k =
     (case own_slot B h ob k of
        Some s \<Rightarrow> Some s
      | None \<Rightarrow> find_slot B h obs k)"

text \<open>
  \<open>v.k\<close> and \<open>v[k]\<close>: reading a property of \<open>undefined\<close> or \<open>null\<close> throws a TypeError;
  otherwise the property is looked up in the value and then along its prototype chain,
  and a property that is nowhere reads as \<open>undefined\<close>.
\<close>

definition get_prop :: "builtins \<Rightarrow> heap \<Rightarrow> jsval \<Rightarrow> string \<Rightarrow> error + jsval" where
  "get_prop B h v k =
     (if v = JUndefined \<or> v = JNull then Inl TypeError
      else case find_slot B h (v # proto_chain h v) k of
        None \<Rightarrow> Inr JUndefined
      | Some (Data x) \<Rightarrow> Inr x
      | Some PrototypeGetter \<Rightarrow> Inr (case proto_chain h v of [] \<Rightarrow> JNull | p # ps \<Rightarrow> p)
      | Some Restricted \<Rightarrow> Inl TypeError)"

text \<open>
  The own enumerable properties of a value, which an object spread \<open>{...v}\<close> copies: the
  entries of an object, the elements of an array and the characters of a string under
  their indices, the enumerable statics of a function.
\<close>

fun own_props :: "builtins \<Rightarrow> heap \<Rightarrow> jsval \<Rightarrow> string \<rightharpoonup> jsval" where
  "own_props B h (JRef a) =
     (case heap_get h a of
        Some (JObject m) \<Rightarrow> m
      | Some (JArray xs) \<Rightarrow> indexed xs
      | None \<Rightarrow> Map.empty)"
| "own_props B h (JStr s) = indexed (map (\<lambda>c. JStr [c]) s)"
| "own_props B h (JFun f n) = statics B f |` enumerable B f"
| "own_props B h v = Map.empty"

definition read_prop :: "builtins \<Rightarrow> jsval \<Rightarrow> string \<Rightarrow> jsval js" where
  "read_prop B v k h = (get_prop B h v k, h)"

definition bindJ :: "'a js \<Rightarrow> ('a \<Rightarrow> 'b js) \<Rightarrow> 'b js" where
  "bindJ m f h = (case m h of (Inl e, h') \<Rightarrow> (Inl e, h') | (Inr x, h') \<Rightarrow> f x h')"

section \<open>The state projection layer\<close>

text \<open>The sixteen selectors, in the order of the source.\<close>

definition getProjectsIsLoading :: "builtins \<Rightarrow> jsval \<Rightarrow> jsval js" where
  "getProjectsIsLoading B state =
     bindJ (read_prop B state ''projectsLoading'') (\<lambda>l. read_prop B l ''isLoading'')"

definition getProjectsByGuid :: "builtins \<Rightarrow> jsval \<Rightarrow> jsval js" where
  "getProjectsByGuid B state = read_prop B state ''projectsByGuid''"

definition getProjectCategoriesByGuid :: "builtins \<Rightarrow> jsval \<Rightarrow> jsval js" where
  "getProjectCategoriesByGuid B state = read_prop B state ''projectCategoriesByGuid''"

definition getFamiliesByGuid :: "builtins \<Rightarrow> jsval \<Rightarrow> jsval js" where
  "getFamiliesByGuid B state = read_prop B state ''familiesByGuid''"

definition getIndividualsByGuid :: "builtins \<Rightarrow> jsval \<Rightarrow> jsval js" where
  "getIndividualsByGuid B state = read_prop B state ''individualsByGuid''"

definition getSamplesByGuid :: "builtins \<Rightarrow> jsval \<Rightarrow> jsval js" where
  "getSamplesByGuid B state = read_prop B state ''samplesByGuid''"

definition getMatchmakerSubmissions :: "builtins \<Rightarrow> jsval \<Rightarrow> jsval js" where
  "getMatchmakerSubmissions B state = read_prop B state ''matchmakerSubmissions''"

definition getMatchmakerMatches :: "builtins \<Rightarrow> jsval \<Rightarrow> jsval js" where
  "getMatchmakerMatches B state = read_prop B state ''matchmakerMatches''"

definition getMatchmakerMatchesLoading :: "builtins \<Rightarrow> jsval \<Rightarrow> jsval js" where
  "getMatchmakerMatchesLoading B state =
     bindJ (read_prop B state ''matchmakerMatchesLoading'') (\<lambda>l. read_prop B l ''isLoading'')"

definition getGenesById :: "builtins \<Rightarrow> jsval \<Rightarrow> jsval js" where
  "getGenesById B state = read_prop B state ''genesById''"

definition getGenesIsLoading :: "builtins \<Rightarrow> jsval \<Rightarrow> jsval js" where
  "getGenesIsLoading B state =
     bindJ (read_prop B state ''genesLoading'') (\<lambda>l. read_prop B l ''isLoading'')"

definition getLocusListsByGuid :: "builtins \<Rightarrow> jsval \<Rightarrow> jsval js" where
  "getLocusListsByGuid B state = read_prop B state ''locusListsByGuid''"

definition getLocusListsIsLoading :: "builtins \<Rightarrow> jsval \<Rightarrow> jsval js" where
  "getLocusListsIsLoading B state =
     bindJ (read_prop B state ''locusListsLoading'') (\<lambda>l. read_prop B l ''isLoading'')"

definition getLocusListIsLoading :: "builtins \<Rightarrow> jsval \<Rightarrow> jsval js" where
  "getLocusListIsLoading B state =
     bindJ (read_prop B state ''locusListLoading'') (\<lambda>l. read_prop B l ''isLoading'')"

definition getVariantIsLoading :: "builtins \<Rightarrow> jsval \<Rightarrow> jsval js" where
  "getVariantIsLoading B state =
     bindJ (read_prop B state ''variantLoading'') (\<lambda>l. read_prop B l ''isLoading'')"

definition getUser :: "builtins \<Rightarrow> jsval \<Rightarrow> jsval js" where
  "getUser B state = read_prop B state ''user''"

text \<open>
  Each selector with the top-level field of the state it reads: the ten that return a
  slice, and the six that return the \<open>isLoading\<close> flag of a loading record.
\<close>

definition slice_accessors :: "builtins \<Rightarrow> ((jsval \<Rightarrow> jsval js) \<times> string) list" where
  "slice_accessors B =
     [(getProjectsByGuid B, ''projectsByGuid''),
      (getProjectCategoriesByGuid B, ''projectCategoriesByGuid''),
      (getFamiliesByGuid B, ''familiesByGuid''),
      (getIndividualsByGuid B, ''individualsByGuid''),
      (getSamplesByGuid B, ''samplesByGuid''),
      (getMatchmakerSubmissions B, ''matchmakerSubmissions''),
      (getMatchmakerMatches B, ''matchmakerMatches''),
      (getGenesById B, ''genesById''),
      (getLocusListsByGuid B, ''locusListsByGuid''),
      (getUser B, ''user'')]"

definition loading_accessors :: "builtins \<Rightarrow> ((jsval \<Rightarrow> jsval js) \<times> string) list" where
  "loading_accessors B =
     [(getProjectsIsLoading B, ''projectsLoading''),
      (getMatchmakerMatchesLoading B, ''matchmakerMatchesLoading''),
      (getGenesIsLoading B, ''genesLoading''),
      (getLocusListsIsLoading B, ''locusListsLoading''),
      (getLocusListIsLoading B, ''locusListLoading''),
      (getVariantIsLoading B, ''variantLoading'')]"

definition accessors :: "builtins \<Rightarrow> ((jsval \<Rightarrow> jsval js) \<times> string) list" where
  "accessors B = slice_accessors B @ loading_accessors B"

text \<open>
  \<open>field_of h s x\<close> is the value stored at the own field \<open>x\<close> of the object \<open>s\<close>, if \<open>s\<close>
  is an object that has the field.
\<close>

definition field_of :: "heap \<Rightarrow> jsval \<Rightarrow> string \<Rightarrow> jsval option" where
  "field_of h s x =
     (case s of
        JRef a \<Rightarrow> (case heap_get h a of Some (JObject m) \<Rightarrow> m x | _ \<Rightarrow> None)
      | _ \<Rightarrow> None)"

definition is_object :: "heap \<Rightarrow> jsval \<Rightarrow> bool" where
  "is_object h s =
     (case s of
        JRef a \<Rightarrow> (case heap_get h a of Some (JObject m) \<Rightarrow> True | _ \<Rightarrow> False)
      | _ \<Rightarrow> False)"

text \<open>The top-level fields that the slice selectors and the loading-flag selectors read.\<close>

definition slice_fields :: "string list" where
  "slice_fields =
     [''projectsByGuid'', ''projectCategoriesByGuid'', ''familiesByGuid'', ''individualsByGuid'',
      ''samplesByGuid'', ''matchmakerSubmissions'', ''matchmakerMatches'', ''genesById'',
      ''locusListsByGuid'', ''user'']"

definition loading_fields :: "string list" where
  "loading_fields =
     [''projectsLoading'', ''matchmakerMatchesLoading'', ''genesLoading'', ''locusListsLoading'',
      ''locusListLoading'', ''variantLoading'']"

text \<open>
  A well-formed state is an object that has every field the selectors read, each loading
  field holding a record (an object).
\<close>

definition well_formed_state :: "heap \<Rightarrow> jsval \<Rightarrow> bool" where
  "well_formed_state h s \<longleftrightarrow>
     is_object h s \<and>
     (\<forall>x \<in> set slice_fields. field_of h s x \<noteq> None) \<and>
     (\<forall>x \<in> set loading_fields.
        case field_of h s x of None \<Rightarrow> False | Some l \<Rightarrow> is_object h l)"

section \<open>The list field editor\<close>

text \<open>
  \<open>returnJ\<close> is a value, \<open>new\<close> an object or array literal.
\<close>

definition returnJ :: "'a \<Rightarrow> 'a js" where
  "returnJ x h = (Inr x, h)"

definition new :: "jsobj \<Rightarrow> jsval js" where
  "new ob h = (case alloc ob h of (r, h') \<Rightarrow> (Inr r, h'))"

text \<open>
  The modules \<open>./BaseFieldView\<close> and \<open>../../form/ReduxFormWrapper\<close> are imported by the
  component and are not part of these sources: the component \<open>BaseFieldView\<close> and the
  value of \<open>validators.required\<close> are parameters.
\<close>

record env =
  BaseFieldView :: jsval
  validators_required :: jsval

text \<open>
  \<open>RemovableInput\<close> is an arrow function of one (destructured) parameter. The
  \<open>propTypes\<close> assigned to it are among its statics.
\<close>

definition RemovableInput :: jsval where
  "RemovableInput = JFun ''RemovableInput'' 1"

text \<open>
  The props object of the component. \<open>field\<close> is declared a required string and is used as
  a property name, so it is a string here. \<open>passThrough\<close> has every other prop.
\<close>

record props =
  addElementLabel :: jsval
  initialValues :: jsval
  field :: string
  passThrough :: "string \<rightharpoonup> jsval"

text \<open>
  The rest object \<open>...props\<close> of the parameter pattern
  \<open>{ addElementLabel, initialValues, ...props }\<close>: every prop but the two named ones.
\<close>

definition rest_props :: "props \<Rightarrow> string \<rightharpoonup> jsval" where
  "rest_props p =
     (passThrough p |` (- {''addElementLabel'', ''initialValues''}))(''field'' \<mapsto> JStr (field p))"

text \<open>A React element: the component it names and the props it passes.\<close>

record element =
  el_type :: jsval
  el_props :: "string \<rightharpoonup> jsval"

text \<open>
  The value stored under the field:
  \<^verbatim>\<open>(initialValue && initialValue.length) ? initialValue : ['']\<close>
\<close>

definition defaulted_value :: "builtins \<Rightarrow> jsval \<Rightarrow> jsval js" where
  "defaulted_value B initialValue =
     bindJ (if truthy initialValue then read_prop B initialValue ''length''
            else returnJ initialValue)
       (\<lambda>c. if truthy c then returnJ initialValue else new (JArray [JStr '''']))"

text \<open>The object literal \<^verbatim>\<open>{ ...src, [k]: v }\<close>.\<close>

definition spread_with :: "builtins \<Rightarrow> jsval \<Rightarrow> string \<Rightarrow> jsval \<Rightarrow> jsval js" where
  "spread_with B src k v h = new (JObject ((own_props B h src)(k \<mapsto> v))) h"

text \<open>
  The component function. The literals are allocated innermost first; the addresses
  themselves are not observable.
\<close>

definition ListFieldView :: "builtins \<Rightarrow> env \<Rightarrow> props \<Rightarrow> element js" where
  "ListFieldView B e p =
     bindJ (new (JObject [''label'' \<mapsto> addElementLabel p])) (\<lambda>label.
     bindJ (new (JObject
              [''name'' \<mapsto> JStr (field p),
               ''isArrayField'' \<mapsto> JBool True,
               ''addArrayElement'' \<mapsto> label,
               ''validate'' \<mapsto> validators_required e,
               ''component'' \<mapsto> RemovableInput])) (\<lambda>descriptor.
     bindJ (new (JArray [descriptor])) (\<lambda>fields.
     bindJ (read_prop B (initialValues p) (field p)) (\<lambda>initialValue.
     bindJ (defaulted_value B initialValue) (\<lambda>v.
     bindJ (spread_with B (initialValues p) (field p) v) (\<lambda>defaultedInitialValues.
     returnJ \<lparr>el_type = BaseFieldView e,
              el_props = [''formFields'' \<mapsto> fields,
                          ''initialValues'' \<mapsto> defaultedInitialValues] ++ rest_props p\<rparr>))))))"


text \<open>What a plain object reads under a name that it does not own.\<close>

definition inherited_by_object :: "string \<Rightarrow> jsval" where
  "inherited_by_object k =
     (if k = ''__proto__'' then JObjectPrototype
      else case object_prototype k of Some m \<Rightarrow> m | None \<Rightarrow> JUndefined)"

section \<open>Example stores\<close>

text \<open>A state object without any field: \<^verbatim>\<open>{}\<close>.\<close>

definition empty_state :: heap where
  "empty_state = [JObject Map.empty]"

text \<open>A state whose only field is a loading record without a flag: \<^verbatim>\<open>{ projectsLoading: {} }\<close>.\<close>

definition sparse_state :: heap where
  "sparse_state = [JObject [''projectsLoading'' \<mapsto> JRef 1], JObject Map.empty]"

text \<open>
  A state with every field the selectors read. The loading fields hold the record
  \<^verbatim>\<open>{ isLoading: true }\<close> at address 1, the slices the empty object at address 2, and
  \<open>user\<close> the record at address 3.
\<close>

definition full_state :: heap where
  "full_state =
     [JObject (map_of
        [(''projectsLoading'', JRef 1),
         (''projectsByGuid'', JRef 2),
         (''projectCategoriesByGuid'', JRef 2),
         (''familiesByGuid'', JRef 2),
         (''individualsByGuid'', JRef 2),
         (''samplesByGuid'', JRef 2),
         (''matchmakerSubmissions'', JRef 2),
         (''matchmakerMatches'', JRef 2),
         (''matchmakerMatchesLoading'', JRef 1),
         (''genesById'', JRef 2),
         (''genesLoading'', JRef 1),
         (''locusListsByGuid'', JRef 2),
         (''locusListsLoading'', JRef 1),
         (''locusListLoading'', JRef 1),
         (''variantLoading'', JRef 1),
         (''user'', JRef 3)]),
      JObject [''isLoading'' \<mapsto> JBool True],
      JObject Map.empty,
      JObject [''username'' \<mapsto> JStr ''test_user'']]"

text \<open>
  An excerpt of the built-in members of an engine. The examples read properties of plain
  objects, the length of arrays and the length of the function \<open>Object\<close> only, so
  none of these entries is read by them.
\<close>

definition example_builtins :: builtins where
  "example_builtins =
     \<lparr>members = (\<lambda>b. case b of
          ArrayPrototype \<Rightarrow> [''push'' \<mapsto> JFun ''push'' 1, ''join'' \<mapsto> JFun ''join'' 1]
        | StringPrototype \<Rightarrow> [''trim'' \<mapsto> JFun ''trim'' 0]
        | FunctionPrototype \<Rightarrow> [''call'' \<mapsto> JFun ''call'' 1]
        | _ \<Rightarrow> Map.empty),
      statics = (\<lambda>f. if f = ''Object'' then [''prototype'' \<mapsto> JObjectPrototype] else Map.empty),
      enumerable = (\<lambda>f. {})\<rparr>"


definition example_env :: env where
  "example_env =
     \<lparr>BaseFieldView = JFun ''BaseFieldView'' 1, validators_required = JFun ''required'' 1\<rparr>"

text \<open>
  Initial values \<^verbatim>\<open>{ aliases: ['a', 'b'], notes: [] }\<close>: the mapping at address 0, the two
  arrays at addresses 1 and 2. The field \<open>tags\<close> is absent.
\<close>

definition form_values :: heap where
  "form_values =
     [JObject [''aliases'' \<mapsto> JRef 1, ''notes'' \<mapsto> JRef 2],
      JArray [JStr ''a'', JStr ''b''],
      JArray []]"

definition example_props :: "string \<Rightarrow> props" where
  "example_props f =
     \<lparr>addElementLabel = JStr ''Add'', initialValues = JRef 0, field = f,
      passThrough = Map.empty\<rparr>"

section \<open>Reading the store\<close>

lemmas read_defs = heap_get_def field_of_def is_object_def

lemma heap_get_append: "a < length h \<Longrightarrow> heap_get (h @ xs) a = heap_get h a"
  by (simp add: heap_get_def nth_append)

lemma heap_get_Some_less: "heap_get h a = Some ob \<Longrightarrow> a < length h"
  by (simp add: heap_get_def split: if_splits)

lemma heap_get_fresh: "heap_get (h @ ob # xs) (length h) = Some ob"
  by (simp add: heap_get_def)

lemma heap_get_extend: "heap_get h a = Some ob \<Longrightarrow> heap_get (h @ xs) a = Some ob"
  using heap_get_append heap_get_Some_less by metis

lemma field_of_extend: "is_object h s \<Longrightarrow> field_of (h @ xs) s x = field_of h s x"
  by (auto simp: is_object_def field_of_def heap_get_extend
      split: jsval.splits option.splits jsobj.splits)

lemma field_of_fresh: "field_of (h @ JObject m # xs) (JRef (length h)) k = m k"
  by (simp add: field_of_def heap_get_fresh)

lemma is_object_extend: "is_object h s \<Longrightarrow> is_object (h @ xs) s"
  by (auto simp: is_object_def heap_get_extend split: jsval.splits option.splits jsobj.splits)

lemma own_props_object: "is_object h s \<Longrightarrow> own_props B h s = field_of h s"
  by (auto simp: is_object_def field_of_def fun_eq_iff
      split: jsval.splits option.splits jsobj.splits)

lemma is_object_not_nullish: "is_object h s \<Longrightarrow> s \<noteq> JUndefined \<and> s \<noteq> JNull"
  by (auto simp: is_object_def)

lemma get_prop_nullish: "v = JUndefined \<or> v = JNull \<Longrightarrow> get_prop B h v k = Inl TypeError"
  by (auto simp: get_prop_def)

text \<open>A plain object: its own property, or else what \<open>Object.prototype\<close> gives.\<close>

lemma get_prop_object:
  assumes "is_object h s"
  shows "get_prop B h s x =
         Inr (case field_of h s x of Some v \<Rightarrow> v | None \<Rightarrow> inherited_by_object x)"
proof -
  from assms obtain a m where s: "s = JRef a" and a: "heap_get h a = Some (JObject m)"
    by (auto simp: is_object_def split: jsval.splits option.splits jsobj.splits)
  show ?thesis
    by (cases "m x"; cases "object_prototype x")
      (simp_all add: s a get_prop_def field_of_def inherited_by_object_def)
qed


lemma get_prop_in_extension:
  assumes "is_object h iv"
  shows "get_prop B (h @ xs) iv f =
         Inr (case field_of h iv f of Some x \<Rightarrow> x | None \<Rightarrow> inherited_by_object f)"
  using assms by (simp add: get_prop_object is_object_extend field_of_extend)

lemma get_prop_length_array:
  "heap_get h b = Some (JArray xs) \<Longrightarrow>
   get_prop B h (JRef b) ''length'' = Inr (JNum (int (length xs)))"
  by (simp add: get_prop_def)

text \<open>Only the store's own objects depend on the store.\<close>

lemma own_slot_heap_free:
  "(\<forall>a. ob \<noteq> JRef a) \<Longrightarrow> own_slot B h ob k = own_slot B h' ob k"
  by (cases ob) simp_all

lemma proto_chain_no_ref: "ob \<in> set (proto_chain h v) \<Longrightarrow> ob \<noteq> JRef a"
  by (cases v) (auto split: option.splits jsobj.splits)

lemma find_slot_heap_free:
  "(\<forall>ob \<in> set obs. \<forall>a. ob \<noteq> JRef a) \<Longrightarrow> find_slot B h obs k = find_slot B h' obs k"
proof (induction obs)
  case Nil
  show ?case by simp
next
  case (Cons ob obs)
  then have "own_slot B h ob k = own_slot B h' ob k"
    by (simp add: own_slot_heap_free)
  with Cons show ?case by (auto split: option.splits)
qed

lemma find_slot_chain_heap_free:
  "find_slot B h (proto_chain h1 v) k = find_slot B h' (proto_chain h1 v) k"
  by (rule find_slot_heap_free) (auto dest: proto_chain_no_ref)

lemma get_prop_extend:
  assumes "\<forall>a. v = JRef a \<longrightarrow> heap_get h a \<noteq> None"
  shows "get_prop B (h @ xs) v k = get_prop B h v k"
proof -
  have own: "own_slot B (h @ xs) v k = own_slot B h v k"
  proof (cases v)
    case (JRef a)
    with assms obtain ob where "heap_get h a = Some ob" by auto
    with JRef show ?thesis by (simp add: heap_get_extend)
  qed simp_all
  have chain: "proto_chain (h @ xs) v = proto_chain h v"
  proof (cases v)
    case (JRef a)
    with assms obtain ob where "heap_get h a = Some ob" by auto
    with JRef show ?thesis by (simp add: heap_get_extend)
  qed simp_all
  have rest: "find_slot B (h @ xs) (proto_chain h v) k = find_slot B h (proto_chain h v) k"
    by (rule find_slot_chain_heap_free)
  have fs: "find_slot B (h @ xs) (v # proto_chain h v) k
        = find_slot B h (v # proto_chain h v) k"
    using own rest by (simp split: option.splits)
  show ?thesis
    by (simp only: get_prop_def fs chain)
qed

text \<open>Reading \<open>length\<close> throws for \<open>undefined\<close> and \<open>null\<close> only.\<close>

lemma find_slot_length_not_restricted:
  "find_slot B h obs ''length'' \<noteq> Some Restricted"
proof (induction obs)
  case Nil
  show ?case by simp
next
  case (Cons ob obs)
  have "own_slot B h ob ''length'' \<noteq> Some Restricted"
    by (cases ob) (auto split: option.splits jsobj.splits)
  with Cons show ?case by (auto split: option.splits)
qed

lemma get_prop_length_total:
  assumes "v \<noteq> JUndefined" "v \<noteq> JNull"
  shows "\<exists>x. get_prop B h v ''length'' = Inr x"
proof (cases "find_slot B h (v # proto_chain h v) ''length''")
  case None
  with assms show ?thesis
    unfolding get_prop_def by (simp del: find_slot.simps)
next
  case (Some s)
  with find_slot_length_not_restricted[of B h "v # proto_chain h v"]
  have "s \<noteq> Restricted" by auto
  with Some assms show ?thesis
    unfolding get_prop_def by (cases s) (simp_all del: find_slot.simps)
qed

text \<open>A truthy \<open>length\<close> is read the same in every extension of the store.\<close>

lemma get_prop_length_extend:
  assumes "get_prop B h v ''length'' = Inr n" "truthy n"
  shows "get_prop B (h @ xs) v ''length'' = Inr n"
proof (cases "\<forall>a. v = JRef a \<longrightarrow> heap_get h a \<noteq> None")
  case True
  with assms(1) show ?thesis by (simp add: get_prop_extend)
next
  case False
  then obtain a where "v = JRef a" "heap_get h a = None" by auto
  then have "get_prop B h v ''length'' = Inr JUndefined"
    by (simp add: get_prop_def object_prototype_def)
  with assms show ?thesis by simp
qed

section \<open>The selectors read one field each\<close>

lemmas accessor_defs =
  getProjectsIsLoading_def getProjectsByGuid_def getProjectCategoriesByGuid_def
  getFamiliesByGuid_def getIndividualsByGuid_def getSamplesByGuid_def
  getMatchmakerSubmissions_def getMatchmakerMatches_def getMatchmakerMatchesLoading_def
  getGenesById_def getGenesIsLoading_def getLocusListsByGuid_def getLocusListsIsLoading_def
  getLocusListIsLoading_def getVariantIsLoading_def getUser_def

lemma slice_accessors_fields: "map snd (slice_accessors B) = slice_fields"
  by (simp add: slice_accessors_def slice_fields_def)

lemma loading_accessors_fields: "map snd (loading_accessors B) = loading_fields"
  by (simp add: loading_accessors_def loading_fields_def)

lemma slice_accessors_read:
  assumes "(g, x) \<in> set (slice_accessors B)"
  shows "g = (\<lambda>s. read_prop B s x)" and "x \<in> set slice_fields"
proof -
  from assms show "g = (\<lambda>s. read_prop B s x)"
    by (auto simp: slice_accessors_def accessor_defs fun_eq_iff)
  from assms have "x \<in> set (map snd (slice_accessors B))" by force
  then show "x \<in> set slice_fields" by (simp only: slice_accessors_fields)
qed

lemma loading_accessors_read:
  assumes "(g, x) \<in> set (loading_accessors B)"
  shows "g = (\<lambda>s. bindJ (read_prop B s x) (\<lambda>l. read_prop B l ''isLoading''))"
    and "x \<in> set loading_fields"
proof -
  from assms show "g = (\<lambda>s. bindJ (read_prop B s x) (\<lambda>l. read_prop B l ''isLoading''))"
    by (auto simp: loading_accessors_def accessor_defs fun_eq_iff)
  from assms have "x \<in> set (map snd (loading_accessors B))" by force
  then show "x \<in> set loading_fields" by (simp only: loading_accessors_fields)
qed

text \<open>No field that a selector reads is the name of a member of \<open>Object.prototype\<close>.\<close>

lemma selector_fields_list:
  "list_all (\<lambda>x. inherited_by_object x = JUndefined)
     (slice_fields @ loading_fields @ [''isLoading''])"
  by (simp add: slice_fields_def loading_fields_def inherited_by_object_def
      object_prototype_def)

lemma selector_fields_plain:
  assumes "x \<in> set slice_fields \<or> x \<in> set loading_fields \<or> x = ''isLoading''"
  shows "inherited_by_object x = JUndefined"
proof -
  from assms have "x \<in> set (slice_fields @ loading_fields @ [''isLoading''])" by auto
  with selector_fields_list show ?thesis
    unfolding list_all_iff by blast
qed

lemma read_prop_heap: "snd (read_prop B v k h) = h"
  by (simp add: read_prop_def)

lemma bind_read_heap: "snd (bindJ (read_prop B v k) (\<lambda>l. read_prop B l k') h) = h"
  by (simp add: bindJ_def read_prop_def split: sum.splits)

section \<open>Runs of the list field editor\<close>

lemma defaulted_value_eq:
  "defaulted_value B v h =
     (if truthy v \<and> (\<exists>n. get_prop B h v ''length'' = Inr n \<and> truthy n) then (Inr v, h)
      else (Inr (JRef (length h)), h @ [JArray [JStr '''']]))"
proof (cases "truthy v")
  case True
  then have "v \<noteq> JUndefined" "v \<noteq> JNull" by auto
  then obtain n where "get_prop B h v ''length'' = Inr n"
    using get_prop_length_total by blast
  with True show ?thesis
    by (simp add: defaulted_value_def bindJ_def read_prop_def returnJ_def new_def alloc_def)
next
  case False
  then show ?thesis
    by (simp add: defaulted_value_def bindJ_def returnJ_def new_def alloc_def)
qed

lemma defaulted_value_returns:
  obtains v ys where "defaulted_value B v0 h = (Inr v, h @ ys)"
  by (cases "truthy v0 \<and> (\<exists>n. get_prop B h v0 ''length'' = Inr n \<and> truthy n)")
    (auto simp: defaulted_value_eq)

text \<open>A value that the test kept, or the new array, is kept by the test in any later store.\<close>

lemma defaulted_value_stable:
  assumes "defaulted_value B v0 h = (Inr v, h1)"
  shows "defaulted_value B v (h1 @ xs) = (Inr v, h1 @ xs)"
proof (cases "truthy v0 \<and> (\<exists>n. get_prop B h v0 ''length'' = Inr n \<and> truthy n)")
  case True
  with assms have "v = v0" "h1 = h" by (auto simp: defaulted_value_eq)
  moreover from True obtain n where "get_prop B (h @ xs) v0 ''length'' = Inr n" "truthy n"
    using get_prop_length_extend by blast
  ultimately show ?thesis using True by (auto simp: defaulted_value_eq)
next
  case False
  with assms have v: "v = JRef (length h)" and h1: "h1 = h @ [JArray [JStr '''']]"
    by (auto simp: defaulted_value_eq)
  have "heap_get (h1 @ xs) (length h) = Some (JArray [JStr ''''])"
    by (simp add: h1 heap_get_fresh)
  then have "get_prop B (h1 @ xs) v ''length'' = Inr (JNum 1)"
    unfolding v by (simp add: get_prop_length_array)
  then show ?thesis by (simp add: defaulted_value_eq v)
qed

lemma rest_props_initialValues: "rest_props p ''initialValues'' = None"
  by (simp add: rest_props_def restrict_map_def)

text \<open>
  A run of the component: the three literals of the field descriptor \<open>lits\<close>; then the
  read of the field throws, or it gives \<open>v0\<close>, the value \<open>v\<close> is stored, and the new
  mapping is at the end of the store.
\<close>

lemma ListFieldView_run:
  obtains lits where
    "length lits = 3"
    "\<And>err. get_prop B (h @ lits) (initialValues p) (field p) = Inl err \<Longrightarrow>
       ListFieldView B e p h = (Inl err, h @ lits)"
    "\<And>v0. get_prop B (h @ lits) (initialValues p) (field p) = Inr v0 \<Longrightarrow>
       \<exists>v ys el.
         defaulted_value B v0 (h @ lits) = (Inr v, h @ lits @ ys) \<and>
         el_type el = BaseFieldView e \<and>
         el_props el ''initialValues'' = Some (JRef (length (h @ lits @ ys))) \<and>
         ListFieldView B e p h =
           (Inr el, h @ lits @ ys @
              [JObject ((own_props B (h @ lits @ ys) (initialValues p))(field p \<mapsto> v))])"
proof -
  define lits where "lits =
    [JObject [''label'' \<mapsto> addElementLabel p],
     JObject [''name'' \<mapsto> JStr (field p), ''isArrayField'' \<mapsto> JBool True,
              ''addArrayElement'' \<mapsto> JRef (length h),
              ''validate'' \<mapsto> validators_required e,
              ''component'' \<mapsto> RemovableInput],
     JArray [JRef (Suc (length h))]]"
  have len: "length lits = 3" by (simp add: lits_def)
  have throws: "ListFieldView B e p h = (Inl err, h @ lits)"
    if "get_prop B (h @ lits) (initialValues p) (field p) = Inl err" for err
    using that unfolding ListFieldView_def
    by (simp add: bindJ_def new_def alloc_def read_prop_def lits_def)
  have returns: "\<exists>v ys el.
         defaulted_value B v0 (h @ lits) = (Inr v, h @ lits @ ys) \<and>
         el_type el = BaseFieldView e \<and>
         el_props el ''initialValues'' = Some (JRef (length (h @ lits @ ys))) \<and>
         ListFieldView B e p h =
           (Inr el, h @ lits @ ys @
              [JObject ((own_props B (h @ lits @ ys) (initialValues p))(field p \<mapsto> v))])"
    if v0: "get_prop B (h @ lits) (initialValues p) (field p) = Inr v0" for v0
  proof -
    obtain v ys where dv: "defaulted_value B v0 (h @ lits) = (Inr v, (h @ lits) @ ys)"
      by (rule defaulted_value_returns)
    define el where "el = \<lparr>el_type = BaseFieldView e,
       el_props = [''formFields'' \<mapsto> JRef (Suc (Suc (length h))),
                   ''initialValues'' \<mapsto> JRef (length (h @ lits @ ys))] ++ rest_props p\<rparr>"
    have "ListFieldView B e p h =
         (Inr el, h @ lits @ ys @
            [JObject ((own_props B (h @ lits @ ys) (initialValues p))(field p \<mapsto> v))])"
      using v0 dv unfolding ListFieldView_def el_def
      by (simp add: bindJ_def new_def alloc_def read_prop_def returnJ_def spread_with_def
          lits_def)
    moreover have "el_props el ''initialValues'' = Some (JRef (length (h @ lits @ ys)))"
      by (simp add: el_def map_add_def rest_props_initialValues)
    moreover have "el_type el = BaseFieldView e" by (simp add: el_def)
    ultimately show ?thesis using dv by auto
  qed
  from len throws returns show ?thesis by (rule that)
qed

lemma ListFieldView_nullish:
  assumes "initialValues p = JUndefined \<or> initialValues p = JNull"
  shows "fst (ListFieldView B e p h) = Inl TypeError"
  using assms
  by (auto simp: ListFieldView_def bindJ_def new_def alloc_def read_prop_def get_prop_nullish)

lemma ListFieldView_extends: "\<exists>xs. snd (ListFieldView B e p h) = h @ xs"
proof -
  obtain lits where
    throws: "\<And>err. get_prop B (h @ lits) (initialValues p) (field p) = Inl err \<Longrightarrow>
       ListFieldView B e p h = (Inl err, h @ lits)"
    and returns: "\<And>v0. get_prop B (h @ lits) (initialValues p) (field p) = Inr v0 \<Longrightarrow>
       \<exists>v ys el.
         defaulted_value B v0 (h @ lits) = (Inr v, h @ lits @ ys) \<and>
         el_type el = BaseFieldView e \<and>
         el_props el ''initialValues'' = Some (JRef (length (h @ lits @ ys))) \<and>
         ListFieldView B e p h =
           (Inr el, h @ lits @ ys @
              [JObject ((own_props B (h @ lits @ ys) (initialValues p))(field p \<mapsto> v))])"
    by (rule ListFieldView_run[of B h p e]) blast
  show ?thesis
  proof (cases "get_prop B (h @ lits) (initialValues p) (field p)")
    case (Inl err)
    from throws[OF Inl] show ?thesis by simp
  next
    case (Inr v0)
    from returns[OF Inr] show ?thesis by (metis snd_conv)
  qed
qed

text \<open>
  The run on a mapping that is an object: the value read \<open>v0\<close> is the own property, or
  else what \<open>Object.prototype\<close> gives; \<open>v\<close> is stored under the field in the new mapping
  \<open>d\<close> of the final store \<open>h'\<close>.
\<close>

lemma ListFieldView_object:
  assumes "is_object h (initialValues p)"
  obtains lits v ys el d h' where
    "defaulted_value B
       (case field_of h (initialValues p) (field p) of
          Some x \<Rightarrow> x | None \<Rightarrow> inherited_by_object (field p))
       (h @ lits) = (Inr v, h @ lits @ ys)"
    "ListFieldView B e p h = (Inr el, h')"
    "el_type el = BaseFieldView e"
    "el_props el ''initialValues'' = Some d"
    "field_of h' d = (field_of h (initialValues p))(field p \<mapsto> v)"
    "h' = h @ lits @ ys @ [JObject ((field_of h (initialValues p))(field p \<mapsto> v))]"
proof -
  let ?v0 = "case field_of h (initialValues p) (field p) of
          Some x \<Rightarrow> x | None \<Rightarrow> inherited_by_object (field p)"
  obtain lits where
    returns: "\<And>v0. get_prop B (h @ lits) (initialValues p) (field p) = Inr v0 \<Longrightarrow>
       \<exists>v ys el.
         defaulted_value B v0 (h @ lits) = (Inr v, h @ lits @ ys) \<and>
         el_type el = BaseFieldView e \<and>
         el_props el ''initialValues'' = Some (JRef (length (h @ lits @ ys))) \<and>
         ListFieldView B e p h =
           (Inr el, h @ lits @ ys @
              [JObject ((own_props B (h @ lits @ ys) (initialValues p))(field p \<mapsto> v))])"
    by (rule ListFieldView_run[of B h p e]) blast
  have "get_prop B (h @ lits) (initialValues p) (field p) = Inr ?v0"
    using assms by (rule get_prop_in_extension)
  from returns[OF this] obtain v ys el where
    dv: "defaulted_value B ?v0 (h @ lits) = (Inr v, h @ lits @ ys)"
    and ty: "el_type el = BaseFieldView e"
    and d: "el_props el ''initialValues'' = Some (JRef (length (h @ lits @ ys)))"
    and run: "ListFieldView B e p h =
       (Inr el, h @ lits @ ys @
          [JObject ((own_props B (h @ lits @ ys) (initialValues p))(field p \<mapsto> v))])"
    by blast
  have own: "own_props B (h @ lits @ ys) (initialValues p) = field_of h (initialValues p)"
    using is_object_extend[OF assms, of "lits @ ys"] field_of_extend[OF assms, of "lits @ ys"]
    by (simp add: own_props_object fun_eq_iff)
  let ?m = "(field_of h (initialValues p))(field p \<mapsto> v)"
  have fo: "field_of (h @ lits @ ys @ [JObject ?m]) (JRef (length (h @ lits @ ys))) = ?m"
    using field_of_fresh[of "h @ lits @ ys" ?m "[]"] by (simp add: fun_eq_iff)
  from run own have run': "ListFieldView B e p h = (Inr el, h @ lits @ ys @ [JObject ?m])"
    by simp
  show ?thesis
    by (rule that[OF dv run' ty d fo refl])
qed


text \<open>The field holds a non-empty array: the reference to it is stored.\<close>

lemma ListFieldView_kept:
  assumes "is_object h (initialValues p)"
    and "field_of h (initialValues p) (field p) = Some (JRef b)"
    and "heap_get h b = Some (JArray xs)"
    and "xs \<noteq> []"
  shows "\<exists>el h' d. ListFieldView B e p h = (Inr el, h') \<and>
           el_props el ''initialValues'' = Some d \<and>
           field_of h' d (field p) = Some (JRef b) \<and>
           heap_get h' b = Some (JArray xs)"
proof -
  from ListFieldView_object[OF assms(1), of B e] assms(2) obtain lits v ys el d h' where
    dv: "defaulted_value B (JRef b) (h @ lits) = (Inr v, h @ lits @ ys)"
    and run: "ListFieldView B e p h = (Inr el, h')"
    and d: "el_props el ''initialValues'' = Some d"
    and fd: "field_of h' d = (field_of h (initialValues p))(field p \<mapsto> v)"
    and h': "h' = h @ lits @ ys @ [JObject ((field_of h (initialValues p))(field p \<mapsto> v))]"
    by (metis option.simps(5))
  have "get_prop B (h @ lits) (JRef b) ''length'' = Inr (JNum (int (length xs)))"
    using get_prop_length_array[OF heap_get_extend[OF assms(3)], of B lits] by simp
  with dv assms(4) have v: "v = JRef b"
    by (auto simp: defaulted_value_eq split: if_splits)
  have "heap_get h' b = Some (JArray xs)"
    unfolding h' by (rule heap_get_extend[OF assms(3)])
  with run d fd v show ?thesis by auto
qed

section \<open>Inherited members\<close>



section \<open>The state projection layer: claims\<close>

text \<open>
  Claim C1, as amended. For every state object \<open>s\<close>: a slice selector whose field is
  missing from \<open>s\<close> returns \<open>undefined\<close> and does not throw; a loading-flag selector whose
  loading record is present but has no \<open>isLoading\<close> returns \<open>undefined\<close> and does not
  throw; a loading-flag selector whose loading record is missing from \<open>s\<close> throws a
  TypeError, since it reads \<open>isLoading\<close> of \<open>undefined\<close>. No selector changes the store.
\<close>

theorem accessor_missing_field:
  assumes "is_object h s"
  shows "(\<forall>(g, x) \<in> set (slice_accessors B).
            field_of h s x = None \<longrightarrow> g s h = (Inr JUndefined, h))
       \<and> (\<forall>(g, x) \<in> set (loading_accessors B).
            field_of h s x = None \<longrightarrow> g s h = (Inl TypeError, h))
       \<and> (\<forall>(g, x) \<in> set (loading_accessors B). \<forall>l.
            field_of h s x = Some l \<and> is_object h l \<and> field_of h l ''isLoading'' = None
              \<longrightarrow> g s h = (Inr JUndefined, h))"
proof -
  have missing: "get_prop B h s x = Inr JUndefined"
    if "x \<in> set slice_fields \<or> x \<in> set loading_fields" "field_of h s x = None" for x
    using that assms selector_fields_plain[of x] by (auto simp: get_prop_object)
  have slice: "g s h = (Inr JUndefined, h)"
    if "(g, x) \<in> set (slice_accessors B)" "field_of h s x = None" for g x
    using slice_accessors_read[OF that(1)] missing[of x] that(2)
    by (simp add: read_prop_def)
  have throws: "g s h = (Inl TypeError, h)"
    if "(g, x) \<in> set (loading_accessors B)" "field_of h s x = None" for g x
    using loading_accessors_read[OF that(1)] missing[of x] that(2)
    by (simp add: read_prop_def bindJ_def get_prop_nullish)
  have flag: "g s h = (Inr JUndefined, h)"
    if "(g, x) \<in> set (loading_accessors B)" "field_of h s x = Some l" "is_object h l"
      "field_of h l ''isLoading'' = None" for g x l
  proof -
    have "get_prop B h s x = Inr l"
      using assms that(2) by (simp add: get_prop_object)
    moreover have "get_prop B h l ''isLoading'' = Inr JUndefined"
      using that(3,4) selector_fields_plain[of "''isLoading''"]
      by (simp add: get_prop_object)
    ultimately show ?thesis
      using loading_accessors_read[OF that(1)] by (simp add: read_prop_def bindJ_def)
  qed
  from slice throws flag show ?thesis by auto
qed

text \<open>
  The three cases of C1 on the state \<^verbatim>\<open>{ projectsLoading: {} }\<close>: \<open>getUser\<close> returns
  \<open>undefined\<close>, \<open>getGenesIsLoading\<close> throws, \<open>getProjectsIsLoading\<close> returns \<open>undefined\<close>.
\<close>

theorem accessor_missing_field_witness:
  "is_object sparse_state (JRef 0) \<and>
   field_of sparse_state (JRef 0) ''user'' = None \<and>
   getUser example_builtins (JRef 0) sparse_state = (Inr JUndefined, sparse_state) \<and>
   field_of sparse_state (JRef 0) ''genesLoading'' = None \<and>
   getGenesIsLoading example_builtins (JRef 0) sparse_state = (Inl TypeError, sparse_state) \<and>
   field_of sparse_state (JRef 0) ''projectsLoading'' = Some (JRef 1) \<and>
   is_object sparse_state (JRef 1) \<and>
   field_of sparse_state (JRef 1) ''isLoading'' = None \<and>
   getProjectsIsLoading example_builtins (JRef 0) sparse_state
     = (Inr JUndefined, sparse_state)"
proof -
  have obj: "is_object sparse_state (JRef 0)"
    by (simp add: sparse_state_def read_defs)
  have fields: "field_of sparse_state (JRef 0) ''user'' = None"
    "field_of sparse_state (JRef 0) ''genesLoading'' = None"
    "field_of sparse_state (JRef 0) ''projectsLoading'' = Some (JRef 1)"
    "is_object sparse_state (JRef 1)"
    "field_of sparse_state (JRef 1) ''isLoading'' = None"
    by (simp_all add: sparse_state_def read_defs)
  from accessor_missing_field[OF obj, of example_builtins] fields obj show ?thesis
    by (simp add: slice_accessors_def loading_accessors_def)
qed

text \<open>
  C1 as stated fails for the loading-flag selectors: on the state \<^verbatim>\<open>{}\<close>, which is
  missing \<open>projectsLoading\<close>, \<open>getProjectsIsLoading\<close> throws instead of returning
  \<open>undefined\<close>.
\<close>

theorem accessor_missing_field_counterexample:
  "is_object empty_state (JRef 0) \<and>
   field_of empty_state (JRef 0) ''projectsLoading'' = None \<and>
   fst (getProjectsIsLoading example_builtins (JRef 0) empty_state) = Inl TypeError \<and>
   fst (getProjectsIsLoading example_builtins (JRef 0) empty_state) \<noteq> Inr JUndefined"
  by (simp add: empty_state_def read_defs getProjectsIsLoading_def bindJ_def read_prop_def
      get_prop_def object_prototype_def)

text \<open>
  Claim C2, as amended. For every well-formed state \<open>s\<close>: each of the ten slice selectors
  returns exactly the value stored at its top-level field of \<open>s\<close> (the same reference for
  an object or an array), and each of the six loading-flag selectors returns exactly the
  value stored at the \<open>isLoading\<close> field of the record at its top-level loading field
  (\<open>undefined\<close> when the record has no such field). Nothing is computed from the value.
\<close>

theorem accessor_returns_field:
  assumes "well_formed_state h s"
  shows "(\<forall>(g, x) \<in> set (slice_accessors B).
            \<exists>v. field_of h s x = Some v \<and> g s h = (Inr v, h))
       \<and> (\<forall>(g, x) \<in> set (loading_accessors B).
            \<exists>l. field_of h s x = Some l \<and> is_object h l \<and>
              g s h = (Inr (case field_of h l ''isLoading'' of
                              Some v \<Rightarrow> v | None \<Rightarrow> JUndefined), h))"
proof -
  from assms have obj: "is_object h s"
    and sl: "\<And>x. x \<in> set slice_fields \<Longrightarrow> field_of h s x \<noteq> None"
    and ld: "\<And>x. x \<in> set loading_fields \<Longrightarrow>
               \<exists>l. field_of h s x = Some l \<and> is_object h l"
    by (auto simp: well_formed_state_def split: option.splits)
  have "\<exists>v. field_of h s x = Some v \<and> g s h = (Inr v, h)"
    if "(g, x) \<in> set (slice_accessors B)" for g x
    using sl[OF slice_accessors_read(2)[OF that]] slice_accessors_read(1)[OF that] obj
    by (auto simp: read_prop_def get_prop_object)
  moreover have "\<exists>l. field_of h s x = Some l \<and> is_object h l \<and>
              g s h = (Inr (case field_of h l ''isLoading'' of
                              Some v \<Rightarrow> v | None \<Rightarrow> JUndefined), h)"
    if "(g, x) \<in> set (loading_accessors B)" for g x
  proof -
    from ld[OF loading_accessors_read(2)[OF that]] obtain l where
      l: "field_of h s x = Some l" "is_object h l" by blast
    have "get_prop B h s x = Inr l"
      using obj l(1) by (simp add: get_prop_object)
    moreover have "get_prop B h l ''isLoading'' =
        Inr (case field_of h l ''isLoading'' of Some v \<Rightarrow> v | None \<Rightarrow> JUndefined)"
      using l(2) selector_fields_plain[of "''isLoading''"]
      by (simp add: get_prop_object split: option.splits)
    ultimately show ?thesis
      using loading_accessors_read(1)[OF that] l by (simp add: read_prop_def bindJ_def)
  qed
  ultimately show ?thesis by blast
qed

text \<open>
  C2 on a state with every field: \<open>getProjectsByGuid\<close> and \<open>getUser\<close> return the
  references stored in the state, \<open>getVariantIsLoading\<close> the flag of the loading record.
\<close>

theorem accessor_returns_field_witness:
  "well_formed_state full_state (JRef 0) \<and>
   getProjectsByGuid example_builtins (JRef 0) full_state = (Inr (JRef 2), full_state) \<and>
   getUser example_builtins (JRef 0) full_state = (Inr (JRef 3), full_state) \<and>
   getVariantIsLoading example_builtins (JRef 0) full_state = (Inr (JBool True), full_state)"
proof -
  have wf: "well_formed_state full_state (JRef 0)"
    by (simp add: full_state_def well_formed_state_def read_defs slice_fields_def
        loading_fields_def)
  have fields: "field_of full_state (JRef 0) ''projectsByGuid'' = Some (JRef 2)"
    "field_of full_state (JRef 0) ''user'' = Some (JRef 3)"
    "field_of full_state (JRef 0) ''variantLoading'' = Some (JRef 1)"
    "field_of full_state (JRef 1) ''isLoading'' = Some (JBool True)"
    by (simp_all add: full_state_def read_defs)
  from accessor_returns_field[OF wf, of example_builtins] fields wf show ?thesis
    by (simp add: slice_accessors_def loading_accessors_def)
qed

text \<open>
  C2 as stated fails for the loading-flag selectors: on a well-formed state
  \<open>getProjectsIsLoading\<close> returns \<open>true\<close>, the flag inside the loading record, which is
  not the value of the top-level field \<open>projectsLoading\<close> (the record itself); and the
  state has no top-level field \<open>projectsIsLoading\<close>.
\<close>

theorem accessor_returns_field_counterexample:
  "well_formed_state full_state (JRef 0) \<and>
   field_of full_state (JRef 0) ''projectsLoading'' = Some (JRef 1) \<and>
   field_of full_state (JRef 0) ''projectsIsLoading'' = None \<and>
   fst (getProjectsIsLoading example_builtins (JRef 0) full_state) = Inr (JBool True) \<and>
   fst (getProjectsIsLoading example_builtins (JRef 0) full_state) \<noteq> Inr (JRef 1)"
  by (simp add: full_state_def well_formed_state_def read_defs slice_fields_def
      loading_fields_def getProjectsIsLoading_def bindJ_def read_prop_def get_prop_def)

text \<open>
  Claim C7. Every selector is free of side effects: for every state \<open>s\<close> and store \<open>h\<close>,
  the store after the call is \<open>h\<close>, so every field of \<open>s\<close> and of every other object is
  unchanged; and the selector keeps nothing between calls, so a second call returns what
  the first returned.
\<close>

theorem accessors_pure:
  "\<forall>(g, x) \<in> set (accessors B). snd (g s h) = h \<and> g s (snd (g s h)) = g s h"
  by (auto simp: accessors_def read_prop_heap bind_read_heap
      dest!: slice_accessors_read(1) loading_accessors_read(1))

text \<open>C7 for \<open>getUser\<close> on the full state and for \<open>getProjectsIsLoading\<close>, which throws, on \<^verbatim>\<open>{}\<close>.\<close>

theorem accessors_pure_witness:
  "snd (getUser example_builtins (JRef 0) full_state) = full_state \<and>
   snd (getProjectsIsLoading example_builtins (JRef 0) empty_state) = empty_state"
  using accessors_pure[of example_builtins "JRef 0" full_state]
    accessors_pure[of example_builtins "JRef 0" empty_state]
  by (simp add: accessors_def slice_accessors_def loading_accessors_def)

section \<open>The list field editor: claims\<close>

text \<open>
  Claim C3. The claim is that the initial-values mapping may be left out. The component
  declares the prop optional, but reads \<open>initialValues[props.field]\<close> without a guard:
  with \<open>initialValues\<close> undefined the call throws a TypeError, whatever the other props.
\<close>

theorem ListFieldView_missing_initialValues:
  "fst (ListFieldView B e (p\<lparr>initialValues := JUndefined\<rparr>) h) = Inl TypeError"
  by (simp add: ListFieldView_nullish)




text \<open>
  Claim C5. If the named field holds a non-empty array, the mapping of the returned
  element holds under the field the reference to that same array, not a copy, and the
  array has the elements it had.
\<close>

theorem nonempty_sequence_preserved:
  assumes "is_object h (initialValues p)"
    and "field_of h (initialValues p) (field p) = Some (JRef b)"
    and "heap_get h b = Some (JArray xs)"
    and "xs \<noteq> []"
  shows "\<exists>el h' d. ListFieldView B e p h = (Inr el, h') \<and>
           el_props el ''initialValues'' = Some d \<and>
           field_of h' d (field p) = Some (JRef b) \<and>
           heap_get h' b = Some (JArray xs)"
  using assms by (rule ListFieldView_kept)

text \<open>C5 for the field \<open>aliases\<close>, which holds \<^verbatim>\<open>['a', 'b']\<close> at address 1.\<close>

theorem nonempty_sequence_preserved_witness:
  "is_object form_values (JRef 0) \<and>
   field_of form_values (JRef 0) ''aliases'' = Some (JRef 1) \<and>
   heap_get form_values 1 = Some (JArray [JStr ''a'', JStr ''b'']) \<and>
   (\<exists>el h' d.
      ListFieldView example_builtins example_env (example_props ''aliases'') form_values
        = (Inr el, h') \<and>
      el_props el ''initialValues'' = Some d \<and>
      field_of h' d ''aliases'' = Some (JRef 1) \<and>
      heap_get h' 1 = Some (JArray [JStr ''a'', JStr ''b'']))"
proof -
  have obj: "is_object form_values (JRef 0)"
    and aliases: "field_of form_values (JRef 0) ''aliases'' = Some (JRef 1)"
      "heap_get form_values 1 = Some (JArray [JStr ''a'', JStr ''b''])"
    by (simp_all add: form_values_def read_defs)
  from nonempty_sequence_preserved[of form_values "example_props ''aliases''" 1
      "[JStr ''a'', JStr ''b'']" example_builtins example_env] obj aliases
  show ?thesis by (simp add: example_props_def)
qed




text \<open>
  Claim C8. Rendering the list field editor one level deep is one call of the component
  function. With props that have a field identifier and an initial-values mapping, the
  call does not throw and returns an element, of the component \<open>BaseFieldView\<close>.
\<close>

theorem shallow_render_ok:
  assumes "is_object h (initialValues p)"
  shows "\<exists>el h'. ListFieldView B e p h = (Inr el, h') \<and> el_type el = BaseFieldView e"
  using ListFieldView_object[OF assms, of B e] by metis

text \<open>C8 for the field \<open>aliases\<close> of the example mapping.\<close>

theorem shallow_render_ok_witness:
  "is_object form_values (JRef 0) \<and>
   (\<exists>el h'.
      ListFieldView example_builtins example_env (example_props ''aliases'') form_values
        = (Inr el, h') \<and>
      el_type el = JFun ''BaseFieldView'' 1)"
proof -
  have obj: "is_object form_values (JRef 0)"
    by (simp add: form_values_def read_defs)
  from shallow_render_ok[of form_values "example_props ''aliases''"
      example_builtins example_env] obj
  show ?thesis by (simp add: example_props_def example_env_def)
qed

text \<open>
  Claim C9. The normalization is idempotent. For every value \<open>v0\<close> read for the field,
  the expression of the source returns a value \<open>v\<close> that it returns again, allocating
  nothing, when it is applied to \<open>v\<close>. For the component: run on the mapping that a first
  run has built, it builds a mapping with the same value under the field.
\<close>

theorem normalization_idempotent:
  "(\<exists>v h1. defaulted_value B v0 h = (Inr v, h1) \<and> defaulted_value B v h1 = (Inr v, h1)) \<and>
   (is_object h (initialValues p) \<longrightarrow>
     (\<exists>el h' d el2 h2 d2 v.
        ListFieldView B e p h = (Inr el, h') \<and> el_props el ''initialValues'' = Some d \<and>
        ListFieldView B e (p\<lparr>initialValues := d\<rparr>) h' = (Inr el2, h2) \<and>
        el_props el2 ''initialValues'' = Some d2 \<and>
        field_of h' d (field p) = Some v \<and> field_of h2 d2 (field p) = Some v))"
proof
  obtain v ys where dv: "defaulted_value B v0 h = (Inr v, h @ ys)"
    by (rule defaulted_value_returns)
  from defaulted_value_stable[OF dv, of "[]"] dv
  show "\<exists>v h1. defaulted_value B v0 h = (Inr v, h1) \<and> defaulted_value B v h1 = (Inr v, h1)"
    by auto
next
  show "is_object h (initialValues p) \<longrightarrow>
     (\<exists>el h' d el2 h2 d2 v.
        ListFieldView B e p h = (Inr el, h') \<and> el_props el ''initialValues'' = Some d \<and>
        ListFieldView B e (p\<lparr>initialValues := d\<rparr>) h' = (Inr el2, h2) \<and>
        el_props el2 ''initialValues'' = Some d2 \<and>
        field_of h' d (field p) = Some v \<and> field_of h2 d2 (field p) = Some v)"
  proof
    assume obj: "is_object h (initialValues p)"
    from ListFieldView_object[OF obj, of B e] obtain lits v ys el d h' where
      dv: "defaulted_value B
         (case field_of h (initialValues p) (field p) of
            Some x \<Rightarrow> x | None \<Rightarrow> inherited_by_object (field p))
         (h @ lits) = (Inr v, h @ lits @ ys)"
      and run: "ListFieldView B e p h = (Inr el, h')"
      and d: "el_props el ''initialValues'' = Some d"
      and fd: "field_of h' d = (field_of h (initialValues p))(field p \<mapsto> v)"
      and h': "h' = h @ lits @ ys @ [JObject ((field_of h (initialValues p))(field p \<mapsto> v))]"
      by metis
    let ?p2 = "p\<lparr>initialValues := d\<rparr>"
    from fd have fv: "field_of h' d (field p) = Some v" by simp
    then have obj2: "is_object h' (initialValues ?p2)"
      by (auto simp: field_of_def is_object_def split: jsval.splits option.splits jsobj.splits)
    from ListFieldView_object[OF obj2, of B e] fv obtain lits2 v2 ys2 el2 d2 h2 where
      dv2: "defaulted_value B v (h' @ lits2) = (Inr v2, h' @ lits2 @ ys2)"
      and run2: "ListFieldView B e ?p2 h' = (Inr el2, h2)"
      and d2: "el_props el2 ''initialValues'' = Some d2"
      and fd2: "field_of h2 d2 = (field_of h' d)(field p \<mapsto> v2)"
      by (simp del: fun_upd_apply) (metis option.simps(5))
    have "defaulted_value B v (h' @ lits2) = (Inr v, h' @ lits2)"
      using defaulted_value_stable[OF dv,
          of "[JObject ((field_of h (initialValues p))(field p \<mapsto> v))] @ lits2"]
      by (simp add: h')
    with dv2 have "v2 = v" by simp
    with fd2 have "field_of h2 d2 (field p) = Some v" by simp
    with run d run2 d2 fv show "\<exists>el h' d el2 h2 d2 v.
        ListFieldView B e p h = (Inr el, h') \<and> el_props el ''initialValues'' = Some d \<and>
        ListFieldView B e (p\<lparr>initialValues := d\<rparr>) h' = (Inr el2, h2) \<and>
        el_props el2 ''initialValues'' = Some d2 \<and>
        field_of h' d (field p) = Some v \<and> field_of h2 d2 (field p) = Some v"
      by blast
  qed
qed

text \<open>C9 for the field \<open>notes\<close>, which holds the empty array.\<close>

theorem normalization_idempotent_witness:
  "is_object form_values (JRef 0) \<and>
   (\<exists>el h' d el2 h2 d2 v.
      ListFieldView example_builtins example_env (example_props ''notes'') form_values
        = (Inr el, h') \<and>
      el_props el ''initialValues'' = Some d \<and>
      ListFieldView example_builtins example_env
        ((example_props ''notes'')\<lparr>initialValues := d\<rparr>) h' = (Inr el2, h2) \<and>
      el_props el2 ''initialValues'' = Some d2 \<and>
      field_of h' d ''notes'' = Some v \<and> field_of h2 d2 ''notes'' = Some v)"
proof -
  have obj: "is_object form_values (JRef 0)"
    by (simp add: form_values_def read_defs)
  from normalization_idempotent[of example_builtins JUndefined form_values
      "example_props ''notes''" example_env] obj
  show ?thesis by (simp add: example_props_def)
qed

text \<open>
  Claim C10. The component changes no object that exists when it is called, so the
  initial-values mapping is not mutated, whether the call returns or throws; and in the
  mapping it builds from a mapping that is an object, every key other than the named
  field has the value it has in the input mapping (the same reference), or is absent as
  it is there.
\<close>

theorem initial_values_frame:
  "(\<forall>a. a < length h \<longrightarrow> heap_get (snd (ListFieldView B e p h)) a = heap_get h a) \<and>
   (is_object h (initialValues p) \<longrightarrow>
     (\<exists>el h' d. ListFieldView B e p h = (Inr el, h') \<and>
        el_props el ''initialValues'' = Some d \<and>
        (\<forall>k. k \<noteq> field p \<longrightarrow> field_of h' d k = field_of h (initialValues p) k)))"
proof
  from ListFieldView_extends[of B e p h]
  show "\<forall>a. a < length h \<longrightarrow> heap_get (snd (ListFieldView B e p h)) a = heap_get h a"
    by (auto simp: heap_get_append)
next
  show "is_object h (initialValues p) \<longrightarrow>
     (\<exists>el h' d. ListFieldView B e p h = (Inr el, h') \<and>
        el_props el ''initialValues'' = Some d \<and>
        (\<forall>k. k \<noteq> field p \<longrightarrow> field_of h' d k = field_of h (initialValues p) k))"
  proof
    assume obj: "is_object h (initialValues p)"
    from ListFieldView_object[OF obj, of B e] obtain v el d h' where
      run: "ListFieldView B e p h = (Inr el, h')"
      and d: "el_props el ''initialValues'' = Some d"
      and fd: "field_of h' d = (field_of h (initialValues p))(field p \<mapsto> v)"
      by metis
    from fd have "\<forall>k. k \<noteq> field p \<longrightarrow> field_of h' d k = field_of h (initialValues p) k"
      by simp
    with run d show "\<exists>el h' d. ListFieldView B e p h = (Inr el, h') \<and>
        el_props el ''initialValues'' = Some d \<and>
        (\<forall>k. k \<noteq> field p \<longrightarrow> field_of h' d k = field_of h (initialValues p) k)"
      by blast
  qed
qed

text \<open>
  C10 for the field \<open>notes\<close>: the mapping at address 0 is as it was, and the new mapping
  has under \<open>aliases\<close> the reference the input mapping has.
\<close>

theorem initial_values_frame_witness:
  "(0::nat) < length form_values \<and>
   heap_get (snd (ListFieldView example_builtins example_env (example_props ''notes'')
                    form_values)) 0
     = heap_get form_values 0 \<and>
   is_object form_values (JRef 0) \<and>
   ''aliases'' \<noteq> ''notes'' \<and>
   (\<exists>el h' d.
      ListFieldView example_builtins example_env (example_props ''notes'') form_values
        = (Inr el, h') \<and>
      el_props el ''initialValues'' = Some d \<and>
      field_of h' d ''aliases'' = Some (JRef 1))"
proof -
  have obj: "is_object form_values (JRef 0)"
    and len: "0 < length form_values"
    and aliases: "field_of form_values (JRef 0) ''aliases'' = Some (JRef 1)"
    by (simp_all add: form_values_def read_defs)
  from initial_values_frame[of form_values example_builtins example_env
      "example_props ''notes''"]
    obj len aliases
  show ?thesis by (auto simp add: example_props_def)
qed

end
